theory Spec2Isabelle
  imports Complex_Main
begin

section \<open>Time-series forecasting notebook: baselines and the recurrent unroll driver\<close>

text \<open>
  The development embeds the code cells of \<^verbatim>\<open>RNN/Time-series Forecasting.ipynb\<close>:
  the walk-forward baselines (naive, exponential smoothing), the error measure, and the
  class \<^verbatim>\<open>RNN\<close> of Exercise 1 with its \<^verbatim>\<open>forward\<close> method.

  Numbers: the notebook computes in IEEE doubles. The baselines are written over any
  type of numbers with \<open>0\<close>, \<open>1\<close>, \<open>+\<close>, \<open>-\<close> and \<open>*\<close>, so that what is proved of
  them holds of the reals and of the type \<open>double\<close> below, which has the infinities and
  NaN. The error measure and the tensors of the recurrent network are over \<^typ>\<open>real\<close>:
  there, rounding, infinities and NaN are outside the model. Python exceptions are
  values of the type \<open>error\<close>, and every function that can raise returns
  \<open>error + result\<close>.
\<close>

subsection \<open>Errors\<close>

text \<open>
  \<open>ShapeMismatch\<close> is the \<^verbatim>\<open>RuntimeError\<close> that PyTorch raises when the sizes of
  tensors disagree (\<^verbatim>\<open>input has inconsistent input_size\<close>, \<^verbatim>\<open>mat1 and mat2 shapes
  cannot be multiplied\<close>, \<^verbatim>\<open>Sizes of tensors must match\<close>); \<open>EmptyTensorList\<close> is the
  \<^verbatim>\<open>RuntimeError\<close> of \<^verbatim>\<open>torch.cat\<close> on an empty list; \<open>IndexError\<close> is raised by numpy
  indexing out of bounds and \<open>ValueError\<close> by \<^verbatim>\<open>sklearn.metrics.mean_squared_error\<close>.
  \<open>InvalidInput\<close> and \<open>NumericInstability\<close> are the two further error kinds that the
  specification names; no path of the notebook raises them.
\<close>

datatype error =
    ShapeMismatch
  | EmptyTensorList
  | IndexError
  | ValueError
  | InvalidInput
  | NumericInstability

subsection \<open>Doubles with infinities and NaN\<close>

text \<open>
  A double is a finite number, one of the two infinities, or NaN. The operations follow
  IEEE 754 on the infinities and NaN: NaN absorbs, \<open>inf - inf\<close> and \<open>0 * inf\<close> are NaN.
  On finite numbers they are those of the reals: rounding and overflow are left out, and
  the two zeros of IEEE, which compare equal, are one number.
\<close>

datatype double = Finite real | PosInf | NegInf | NaN

fun is_finite :: "double \<Rightarrow> bool" where
  "is_finite (Finite a) = True"
| "is_finite d = False"

instantiation double :: "{zero, one, plus, minus, times}"
begin

definition zero_double :: double where
  "zero_double = Finite 0"

definition one_double :: double where
  "one_double = Finite 1"

fun plus_double :: "double \<Rightarrow> double \<Rightarrow> double" where
  "plus_double (Finite a) (Finite b) = Finite (a + b)"
| "plus_double NaN d = NaN"
| "plus_double d NaN = NaN"
| "plus_double PosInf NegInf = NaN"
| "plus_double NegInf PosInf = NaN"
| "plus_double PosInf d = PosInf"
| "plus_double d PosInf = PosInf"
| "plus_double NegInf d = NegInf"
| "plus_double d NegInf = NegInf"

fun minus_double :: "double \<Rightarrow> double \<Rightarrow> double" where
  "minus_double (Finite a) (Finite b) = Finite (a - b)"
| "minus_double NaN d = NaN"
| "minus_double d NaN = NaN"
| "minus_double PosInf PosInf = NaN"
| "minus_double NegInf NegInf = NaN"
| "minus_double PosInf d = PosInf"
| "minus_double d NegInf = PosInf"
| "minus_double NegInf d = NegInf"
| "minus_double d PosInf = NegInf"

fun times_double :: "double \<Rightarrow> double \<Rightarrow> double" where
  "times_double (Finite a) (Finite b) = Finite (a * b)"
| "times_double NaN d = NaN"
| "times_double d NaN = NaN"
| "times_double PosInf (Finite b) = (if b = 0 then NaN else if 0 < b then PosInf else NegInf)"
| "times_double NegInf (Finite b) = (if b = 0 then NaN else if 0 < b then NegInf else PosInf)"
| "times_double (Finite a) PosInf = (if a = 0 then NaN else if 0 < a then PosInf else NegInf)"
| "times_double (Finite a) NegInf = (if a = 0 then NaN else if 0 < a then NegInf else PosInf)"
| "times_double PosInf PosInf = PosInf"
| "times_double NegInf NegInf = PosInf"
| "times_double PosInf NegInf = NegInf"
| "times_double NegInf PosInf = NegInf"

instance ..

end

subsection \<open>numpy arrays of rank one\<close>

text \<open>
  \<^verbatim>\<open>a[i]\<close> for an integer \<^verbatim>\<open>i\<close>: a negative index counts from the end, and an index
  outside \<^verbatim>\<open>-len(a) .. len(a)-1\<close> raises \<^verbatim>\<open>IndexError\<close>.
\<close>

definition getitem :: "'a list \<Rightarrow> int \<Rightarrow> error + 'a" where
  "getitem a i =
     (let n = int (length a); j = (if i < 0 then i + n else i)
      in if 0 \<le> j \<and> j < n then Inr (a ! nat j) else Inl IndexError)"

text \<open>\<^verbatim>\<open>a[i] = v\<close>, with the same index rule.\<close>

definition setitem :: "'a list \<Rightarrow> int \<Rightarrow> 'a \<Rightarrow> error + 'a list" where
  "setitem a i v =
     (let n = int (length a); j = (if i < 0 then i + n else i)
      in if 0 \<le> j \<and> j < n then Inr (a[nat j := v]) else Inl IndexError)"

text \<open>\<^verbatim>\<open>np.zeros(n)\<close> and \<^verbatim>\<open>np.append(a, b)\<close>.\<close>

definition np_zeros :: "nat \<Rightarrow> 'a::zero list" where
  "np_zeros n = replicate n 0"

definition np_append :: "'a list \<Rightarrow> 'a list \<Rightarrow> 'a list" where
  "np_append a b = a @ b"

subsection \<open>The naive walk-forward baseline\<close>

text \<open>
  \<^verbatim>\<open>
  history = np.append(train_signal, np.zeros(len(test_signal)))
  predictions = np.zeros(len(test_signal))
  for i in range(len(test_signal)):
      t = len(train_signal) + i
      predictions[i] = history[t-1]
      history[t] = test_signal[i]
  \<close>
  The loop state is the pair of arrays \<open>(history, predictions)\<close>; the loop runs over
  the list of indices \<^verbatim>\<open>range(len(test_signal))\<close>.
\<close>

fun naive_loop ::
  "'a list \<Rightarrow> 'a list \<Rightarrow> nat list \<Rightarrow> 'a list \<times> 'a list
     \<Rightarrow> error + 'a list \<times> 'a list" where
  "naive_loop train_signal test_signal [] (history, predictions) =
     Inr (history, predictions)"
| "naive_loop train_signal test_signal (i # is) (history, predictions) =
     (let t = int (length train_signal) + int i in
      case getitem history (t - 1) of Inl e \<Rightarrow> Inl e | Inr p \<Rightarrow>
      case setitem predictions (int i) p of Inl e \<Rightarrow> Inl e | Inr predictions' \<Rightarrow>
      case getitem test_signal (int i) of Inl e \<Rightarrow> Inl e | Inr obs \<Rightarrow>
      case setitem history t obs of Inl e \<Rightarrow> Inl e | Inr history' \<Rightarrow>
        naive_loop train_signal test_signal is (history', predictions'))"

definition walk_forward_naive :: "'a::zero list \<Rightarrow> 'a list \<Rightarrow> error + 'a list" where
  "walk_forward_naive train_signal test_signal =
     (let history = np_append train_signal (np_zeros (length test_signal));
          predictions = np_zeros (length test_signal)
      in case naive_loop train_signal test_signal [0..<length test_signal]
                (history, predictions) of
           Inl e \<Rightarrow> Inl e
         | Inr (history', predictions') \<Rightarrow> Inr predictions')"

subsection \<open>Exponential smoothing\<close>

text \<open>
  \<^verbatim>\<open>
  def exponential_smoothing(alpha):
      history = np.append(train_signal, np.zeros(len(test_signal)))
      predictions = np.zeros(len(test_signal))
      for i in range(len(test_signal)):
          t = len(train_signal) + i
          if i == 0:
              predictions[i] = history[t-1]
          else:
              predictions[i] = alpha * history[t-1] + (1 - alpha) * predictions[i-1]
          history[t] = test_signal[i]
      return predictions
  \<close>
  The globals \<^verbatim>\<open>train_signal\<close> and \<^verbatim>\<open>test_signal\<close> that the function reads are
  arguments of the model. The arithmetic is that of the type of the numbers: of
  \<^typ>\<open>real\<close>, or of \<^typ>\<open>double\<close> with its infinities and NaN.
\<close>

fun smoothing_loop ::
  "'a::{one, plus, minus, times} \<Rightarrow> 'a list \<Rightarrow> 'a list \<Rightarrow> nat list \<Rightarrow> 'a list \<times> 'a list
     \<Rightarrow> error + 'a list \<times> 'a list" where
  "smoothing_loop alpha train_signal test_signal [] (history, predictions) =
     Inr (history, predictions)"
| "smoothing_loop alpha train_signal test_signal (i # is) (history, predictions) =
     (let t = int (length train_signal) + int i in
      case (if i = 0 then getitem history (t - 1)
            else (case getitem history (t - 1) of Inl e \<Rightarrow> Inl e | Inr h \<Rightarrow>
                  case getitem predictions (int i - 1) of Inl e \<Rightarrow> Inl e | Inr q \<Rightarrow>
                    Inr (alpha * h + (1 - alpha) * q))) of
        Inl e \<Rightarrow> Inl e | Inr p \<Rightarrow>
      case setitem predictions (int i) p of Inl e \<Rightarrow> Inl e | Inr predictions' \<Rightarrow>
      case getitem test_signal (int i) of Inl e \<Rightarrow> Inl e | Inr obs \<Rightarrow>
      case setitem history t obs of Inl e \<Rightarrow> Inl e | Inr history' \<Rightarrow>
        smoothing_loop alpha train_signal test_signal is (history', predictions'))"

definition exponential_smoothing ::
  "'a::{zero, one, plus, minus, times} \<Rightarrow> 'a list \<Rightarrow> 'a list \<Rightarrow> error + 'a list" where
  "exponential_smoothing alpha train_signal test_signal =
     (let history = np_append train_signal (np_zeros (length test_signal));
          predictions = np_zeros (length test_signal)
      in case smoothing_loop alpha train_signal test_signal [0..<length test_signal]
                (history, predictions) of
           Inl e \<Rightarrow> Inl e
         | Inr (history', predictions') \<Rightarrow> Inr predictions')"

subsection \<open>Root-mean-squared error\<close>

text \<open>
  \<^verbatim>\<open>np.sqrt(mean_squared_error(predictions, test_signal))\<close>. The function
  \<^verbatim>\<open>mean_squared_error\<close> of scikit-learn averages the squared differences of its two
  arguments, and raises \<^verbatim>\<open>ValueError\<close> when their lengths differ or when they are empty.
\<close>

definition mean_squared_error :: "real list \<Rightarrow> real list \<Rightarrow> error + real" where
  "mean_squared_error y_true y_pred =
     (if length y_true = length y_pred \<and> y_true \<noteq> []
      then Inr (sum_list (map2 (\<lambda>a b. (a - b)\<^sup>2) y_true y_pred) / real (length y_true))
      else Inl ValueError)"

definition rmse :: "real list \<Rightarrow> real list \<Rightarrow> error + real" where
  "rmse predictions test_signal =
     (case mean_squared_error predictions test_signal of
        Inl e \<Rightarrow> Inl e
      | Inr m \<Rightarrow> Inr (sqrt m))"

subsection \<open>Tensors of rank two\<close>

text \<open>
  Every tensor that \<^verbatim>\<open>RNN.forward\<close> handles has rank two: the input is
  \<^verbatim>\<open>torch.from_numpy(data[:3, :-1])\<close>, of shape (signals, time steps). A tensor is its
  shape together with its rows; \<open>size0\<close> and \<open>size1\<close> are \<^verbatim>\<open>t.size(0)\<close> and
  \<^verbatim>\<open>t.size(1)\<close>. The shape is kept apart from the rows so that a tensor with no row or
  no column still has both sizes, as in PyTorch. The records that stand for tensors are
  the \<open>well_shaped\<close> ones: \<open>size0\<close> rows of \<open>size1\<close> entries each.
\<close>

record tensor =
  size0 :: nat
  size1 :: nat
  rows :: "real list list"

definition well_shaped :: "tensor \<Rightarrow> bool" where
  "well_shaped t \<longleftrightarrow>
     length (rows t) = size0 t \<and> list_all (\<lambda>r. length r = size1 t) (rows t)"

text \<open>\<^verbatim>\<open>torch.zeros(b, h, dtype=torch.double)\<close>.\<close>

definition zeros :: "nat \<Rightarrow> nat \<Rightarrow> tensor" where
  "zeros b h = \<lparr>size0 = b, size1 = h, rows = replicate b (replicate h 0)\<rparr>"

text \<open>
  \<^verbatim>\<open>t.split(1, dim=1)\<close>: the chunks of width one along the second dimension, in order.
  PyTorch returns at least one chunk: for a tensor with no column the result is the
  one-element tuple holding that tensor.
\<close>

definition column :: "tensor \<Rightarrow> nat \<Rightarrow> tensor" where
  "column t j = \<lparr>size0 = size0 t, size1 = 1, rows = map (\<lambda>r. [r ! j]) (rows t)\<rparr>"

definition split_1 :: "tensor \<Rightarrow> tensor list" where
  "split_1 t = (if size1 t = 0 then [t] else map (column t) [0..<size1 t])"

text \<open>
  \<^verbatim>\<open>torch.cat(ts, dim=1)\<close>: an empty list is an error, and so are tensors whose first
  sizes differ; otherwise the rows are joined and the second sizes add up.
\<close>

fun cat_1 :: "tensor list \<Rightarrow> error + tensor" where
  "cat_1 [] = Inl EmptyTensorList"
| "cat_1 (t # ts) =
     (if list_all (\<lambda>u. size0 u = size0 t) ts
      then Inr \<lparr>size0 = size0 t,
                size1 = sum_list (map size1 (t # ts)),
                rows = map (\<lambda>i. concat (map (\<lambda>u. rows u ! i) (t # ts))) [0..<size0 t]\<rparr>
      else Inl ShapeMismatch)"

subsection \<open>The layers \<^verbatim>\<open>nn.RNNCell\<close> and \<^verbatim>\<open>nn.Linear\<close>\<close>

text \<open>
  The two layers belong to PyTorch; they are modelled after its documentation. A layer
  is its configured sizes and its parameters. PyTorch draws the parameters at random
  when the layer is built, so here they are given; \<open>weight_ih\<close> has \<open>hidden_size\<close> rows
  of \<open>input_size\<close> entries, \<open>weight_hh\<close> has \<open>hidden_size\<close> rows of \<open>hidden_size\<close>
  entries, \<open>weight\<close> has \<open>out_features\<close> rows of \<open>in_features\<close> entries, and each bias
  has one entry per row of its matrix.

  \<^verbatim>\<open>F.linear(x, W, b)\<close> on one row: \<open>W x + b\<close>.
\<close>

definition dot :: "real list \<Rightarrow> real list \<Rightarrow> real" where
  "dot w x = sum_list (map2 (*) w x)"

definition affine :: "real list list \<Rightarrow> real list \<Rightarrow> real list \<Rightarrow> real list" where
  "affine W b x = map2 (\<lambda>w c. dot w x + c) W b"

record RNNCell =
  input_size :: nat
  cell_hidden_size :: nat
  weight_ih :: "real list list"
  weight_hh :: "real list list"
  bias_ih :: "real list"
  bias_hh :: "real list"

text \<open>
  \<^verbatim>\<open>cell(input, hx)\<close>: the new state \<open>tanh (W_ih x + b_ih + W_hh h + b_hh)\<close>, row by
  row. The cell first checks, in this order, that the input has \<open>input_size\<close> columns,
  that input and state have the same number of rows, and that the state has
  \<open>hidden_size\<close> columns; each failed check raises.
\<close>

definition RNNCell_forward :: "RNNCell \<Rightarrow> tensor \<Rightarrow> tensor \<Rightarrow> error + tensor" where
  "RNNCell_forward cell x hx =
     (if size1 x \<noteq> input_size cell then Inl ShapeMismatch
      else if size0 x \<noteq> size0 hx then Inl ShapeMismatch
      else if size1 hx \<noteq> cell_hidden_size cell then Inl ShapeMismatch
      else Inr \<lparr>size0 = size0 x,
                size1 = cell_hidden_size cell,
                rows = map2 (\<lambda>xr hr. map tanh
                               (map2 (+) (affine (weight_ih cell) (bias_ih cell) xr)
                                         (affine (weight_hh cell) (bias_hh cell) hr)))
                         (rows x) (rows hx)\<rparr>)"

record Linear =
  in_features :: nat
  out_features :: nat
  weight :: "real list list"
  bias :: "real list"

definition Linear_forward :: "Linear \<Rightarrow> tensor \<Rightarrow> error + tensor" where
  "Linear_forward l x =
     (if size1 x \<noteq> in_features l then Inl ShapeMismatch
      else Inr \<lparr>size0 = size0 x,
                size1 = out_features l,
                rows = map (affine (weight l) (bias l)) (rows x)\<rparr>)"

subsection \<open>The class \<^verbatim>\<open>RNN\<close> of Exercise 1\<close>

text \<open>
  \<^verbatim>\<open>
  class RNN(nn.Module):
      def __init__(self, input_size, hidden_size, output_size):
          super(RNN, self).__init__()
          self.hidden_size = hidden_size
          self.rnn1 = nn.RNNCell(input_size, hidden_size)
          self.linear = nn.Linear(hidden_size, output_size)
  \<close>
  The field \<^verbatim>\<open>linear\<close> is \<open>linear'\<close> here, \<open>linear\<close> being a constant of HOL.
  \<open>RNN_init\<close> is the constructor, with the parameters of the two layers as further
  arguments.
\<close>

record RNN =
  hidden_size :: nat
  rnn1 :: RNNCell
  linear' :: Linear

definition RNN_init ::
  "nat \<Rightarrow> nat \<Rightarrow> nat \<Rightarrow> real list list \<Rightarrow> real list list \<Rightarrow> real list \<Rightarrow> real list
     \<Rightarrow> real list list \<Rightarrow> real list \<Rightarrow> RNN" where
  "RNN_init n_input n_hidden n_output w_ih w_hh b_ih b_hh w b =
     \<lparr>hidden_size = n_hidden,
      rnn1 = \<lparr>input_size = n_input, cell_hidden_size = n_hidden,
              weight_ih = w_ih, weight_hh = w_hh, bias_ih = b_ih, bias_hh = b_hh\<rparr>,
      linear' = \<lparr>in_features = n_hidden, out_features = n_output, weight = w, bias = b\<rparr>\<rparr>"

text \<open>
  \<^verbatim>\<open>
      def forward(self, input, future=0):
          hidden = torch.zeros(input.size(0), self.hidden_size, dtype=torch.double)
          outputs = []
          for input_t in input.split(1, dim=1):
              hidden = self.rnn1(input_t, hidden)
              output = self.linear(hidden)
              outputs += [output]
          outputs = torch.cat(outputs, dim=1)
          return outputs, hidden
  \<close>
  \<open>unroll\<close> is the \<^verbatim>\<open>for\<close> loop, over the chunks still to come, with the loop state
  \<open>(hidden, outputs)\<close>; an exception of a layer leaves the loop and the method. The
  body of the method has no use of \<^verbatim>\<open>future\<close>, and neither has the model.
\<close>

fun unroll :: "RNN \<Rightarrow> tensor list \<Rightarrow> tensor \<Rightarrow> tensor list \<Rightarrow> error + tensor \<times> tensor list" where
  "unroll self [] hidden outputs = Inr (hidden, outputs)"
| "unroll self (input_t # chunks) hidden outputs =
     (case RNNCell_forward (rnn1 self) input_t hidden of
        Inl e \<Rightarrow> Inl e
      | Inr hidden' \<Rightarrow>
          (case Linear_forward (linear' self) hidden' of
             Inl e \<Rightarrow> Inl e
           | Inr output \<Rightarrow> unroll self chunks hidden' (outputs @ [output])))"

definition forward :: "RNN \<Rightarrow> tensor \<Rightarrow> int \<Rightarrow> error + tensor \<times> tensor" where
  "forward self input future =
     (let hidden = zeros (size0 input) (hidden_size self) in
      case unroll self (split_1 input) hidden [] of
        Inl e \<Rightarrow> Inl e
      | Inr (hidden', outputs) \<Rightarrow>
          (case cat_1 outputs of
             Inl e \<Rightarrow> Inl e
           | Inr outputs' \<Rightarrow> Inr (outputs', hidden')))"


subsection \<open>A call of \<^verbatim>\<open>forward\<close> as a step of the interpreter\<close>

text \<open>
  Two things outside its arguments could make a call of a method differ from the call
  before: the random generator of PyTorch, which is global and from which
  \<^verbatim>\<open>torch.randn\<close>, the constructors of the layers and dropout draw, and the attributes of
  the object \<^verbatim>\<open>rnn\<close>, which a method may assign. Both are the state of the interpreter
  here. A generator is the sequence of numbers it has still to yield.
\<close>

type_synonym generator = "nat \<Rightarrow> real"

record interpreter =
  default_generator :: generator
  rnn :: RNN

text \<open>
  \<^verbatim>\<open>ins = torch.randn(1, 1)\<close> of the notebook: the tensor takes the next numbers of the
  generator, which moves on.
\<close>

definition randn :: "interpreter \<Rightarrow> nat \<Rightarrow> nat \<Rightarrow> tensor \<times> interpreter" where
  "randn s b h =
     (\<lparr>size0 = b, size1 = h,
       rows = map (\<lambda>i. map (\<lambda>j. default_generator s (i * h + j)) [0..<h]) [0..<b]\<rparr>,
      s\<lparr>default_generator := (\<lambda>k. default_generator s (k + b * h))\<rparr>)"

text \<open>
  \<^verbatim>\<open>self.rnn1(input_t, hidden)\<close> and \<^verbatim>\<open>self.linear(hidden)\<close>: the two layers compute
  their value from their parameters and their arguments. Neither has dropout, so they
  draw no number, and their \<^verbatim>\<open>forward\<close> assigns no attribute: the state after the call
  is the state before.
\<close>

definition call_rnn1 :: "interpreter \<Rightarrow> tensor \<Rightarrow> tensor \<Rightarrow> (error + tensor) \<times> interpreter" where
  "call_rnn1 s input_t hidden = (RNNCell_forward (rnn1 (rnn s)) input_t hidden, s)"

definition call_linear :: "interpreter \<Rightarrow> tensor \<Rightarrow> (error + tensor) \<times> interpreter" where
  "call_linear s hidden = (Linear_forward (linear' (rnn s)) hidden, s)"

text \<open>
  The method \<^verbatim>\<open>forward\<close> once more, statement by statement, with the state of the
  interpreter handed from each call of a layer to the next statement. \<^verbatim>\<open>hidden\<close> and
  \<^verbatim>\<open>outputs\<close> are local variables of the method, not attributes of \<^verbatim>\<open>self\<close>.
\<close>

fun unroll_call ::
  "interpreter \<Rightarrow> tensor list \<Rightarrow> tensor \<Rightarrow> tensor list
     \<Rightarrow> (error + tensor \<times> tensor list) \<times> interpreter" where
  "unroll_call s [] hidden outputs = (Inr (hidden, outputs), s)"
| "unroll_call s (input_t # chunks) hidden outputs =
     (case call_rnn1 s input_t hidden of
        (Inl e, s') \<Rightarrow> (Inl e, s')
      | (Inr hidden', s') \<Rightarrow>
          (case call_linear s' hidden' of
             (Inl e, s'') \<Rightarrow> (Inl e, s'')
           | (Inr output, s'') \<Rightarrow> unroll_call s'' chunks hidden' (outputs @ [output])))"

definition forward_call ::
  "interpreter \<Rightarrow> tensor \<Rightarrow> int \<Rightarrow> (error + tensor \<times> tensor) \<times> interpreter" where
  "forward_call s input future =
     (let hidden = zeros (size0 input) (hidden_size (rnn s)) in
      case unroll_call s (split_1 input) hidden [] of
        (Inl e, s') \<Rightarrow> (Inl e, s')
      | (Inr (hidden', outputs), s') \<Rightarrow>
          (case cat_1 outputs of
             Inl e \<Rightarrow> (Inl e, s')
           | Inr outputs' \<Rightarrow> (Inr (outputs', hidden'), s')))"

section \<open>Properties of the baselines\<close>

subsection \<open>Array accesses of the walk-forward loops\<close>

lemma getitem_nat: "i < length a \<Longrightarrow> getitem a (int i) = Inr (a ! i)"
  by (simp add: getitem_def)

lemma setitem_nat: "i < length a \<Longrightarrow> setitem a (int i) v = Inr (a[i := v])"
  by (simp add: setitem_def)

lemma history_update:
  assumes "length test_signal = n" "k < n"
  shows "(train_signal @ take k test_signal @ replicate (n - k) 0)
           [length train_signal + k := test_signal ! k]
         = train_signal @ take (Suc k) test_signal @ replicate (n - Suc k) (0::'a::zero)"
proof -
  have r: "replicate (n - k) (0::'a::zero) = 0 # replicate (n - Suc k) 0"
    using assms by (cases "n - k") (auto simp: Suc_diff_Suc)
  show ?thesis using assms
    by (simp add: list_update_append r take_Suc_conv_app_nth)
qed

lemma getitem_minus_one:
  "a \<noteq> [] \<Longrightarrow> getitem a (- 1) = Inr (last a)"
proof -
  assume a: "a \<noteq> []"
  then have "nat (int (length a) - 1) = length a - 1" by simp
  with a show ?thesis by (simp add: getitem_def Let_def last_conv_nth)
qed

lemma history_previous:
  assumes "length test_signal = n" "k < n"
  shows "getitem (train_signal @ take k test_signal @ replicate (n - k) 0)
           (int (length train_signal) + int k - 1)
         = Inr (if k = 0 then (if train_signal = [] then 0 else last train_signal)
                else test_signal ! (k - 1))"
proof (cases "length train_signal + k")
  case 0
  then have e: "train_signal = []" "k = 0" by simp_all
  have "getitem (replicate n (0::'a::zero)) (- 1) = Inr 0"
    using assms(2) getitem_minus_one[of "replicate n (0::'a::zero)"] by simp
  then show ?thesis by (simp add: e)
next
  case (Suc m)
  then have i: "int (length train_signal) + int k - 1 = int m" by linarith
  have m: "m < length (train_signal @ take k test_signal @ replicate (n - k) (0::'a::zero))"
    using Suc assms by simp
  have "(train_signal @ take k test_signal @ replicate (n - k) 0) ! m
      = (if k = 0 then (if train_signal = [] then 0 else last train_signal)
                else test_signal ! (k - 1))"
  proof (cases "k = 0")
    case True
    then have "train_signal \<noteq> []" "m = length train_signal - 1" using Suc by auto
    then show ?thesis using True by (simp add: nth_append last_conv_nth)
  next
    case False
    then obtain j where j: "k = Suc j" by (cases k) auto
    then have mj: "m = length train_signal + j" using Suc by simp
    have "(take k test_signal @ replicate (n - k) 0) ! j = test_signal ! j"
      using j assms by (simp add: nth_append)
    then show ?thesis unfolding mj nth_append_length_plus using j by simp
  qed
  then show ?thesis unfolding i using getitem_nat[OF m] by simp
qed

lemma getitem_pred: "0 < k \<Longrightarrow> k \<le> length P \<Longrightarrow> getitem P (int k - 1) = Inr (P ! (k - 1))"
proof -
  assume k: "0 < k" "k \<le> length P"
  then obtain j where j: "k = Suc j" by (cases k) auto
  then have "int k - 1 = int j" by simp
  moreover have "j < length P" using j k by simp
  ultimately show ?thesis using j getitem_nat[of j P] by simp
qed

lemma history_reveal:
  assumes "length test_signal = n" "k < n"
  shows "setitem (train_signal @ take k test_signal @ replicate (n - k) 0)
            (int (length train_signal) + int k) (test_signal ! k)
          = Inr (train_signal @ take (Suc k) test_signal @ replicate (n - Suc k) 0)"
proof -
  have i: "int (length train_signal) + int k = int (length train_signal + k)" by simp
  have l: "length train_signal + k
         < length (train_signal @ take k test_signal @ replicate (n - k) (0::'a::zero))"
    using assms by simp
  show ?thesis unfolding i setitem_nat[OF l] history_update[OF assms] ..
qed

lemma loop_done:
  assumes "length test_signal = n" "length P = n"
  shows "smoothing_loop alpha train_signal test_signal [n..<n]
               (train_signal @ take n test_signal @ replicate (n - n) 0, P)
             = Inr (train_signal @ test_signal, P)"
  using assms by simp

subsection \<open>The loop of exponential smoothing\<close>

text \<open>
  Before the iteration for index \<open>k\<close> the array \<open>history\<close> holds the training signal,
  the first \<open>k\<close> observations and zeros; one iteration writes \<open>predictions[k]\<close> and
  reveals observation \<open>k\<close>.
\<close>

lemma smoothing_step:
  assumes n: "length test_signal = n" and kn: "k < n" and P: "length P = n"
  shows "smoothing_loop alpha train_signal test_signal (k # is)
           (train_signal @ take k test_signal @ replicate (n - k) 0, P)
       = smoothing_loop alpha train_signal test_signal is
           (train_signal @ take (Suc k) test_signal @ replicate (n - Suc k) 0,
            P[k := (if k = 0 then (if train_signal = [] then 0 else last train_signal)
                    else alpha * test_signal ! (k - 1) + (1 - alpha) * P ! (k - 1))])"
proof -
  have sp: "setitem P (int k) v = Inr (P[k := v])" for v
    using kn P by (simp add: setitem_nat)
  have gt: "getitem test_signal (int k) = Inr (test_signal ! k)"
    using kn n by (simp add: getitem_nat)
  show ?thesis
  proof (cases "k = 0")
    case True
    show ?thesis
      by (simp only: smoothing_loop.simps Let_def history_previous[OF n kn]
            history_reveal[OF n kn] sp gt sum.case if_P[OF True])
  next
    case False
    then have "getitem P (int k - 1) = Inr (P ! (k - 1))"
      using getitem_pred[of k P] kn P by simp
    then show ?thesis
      by (simp only: smoothing_loop.simps Let_def history_previous[OF n kn]
            history_reveal[OF n kn] sp gt sum.case if_not_P[OF False])
  qed
qed

lemma smoothing_loop_run:
  assumes "length test_signal = n" "k \<le> n" "length P = n"
  shows "\<exists>Q. smoothing_loop alpha train_signal test_signal [k..<n]
               (train_signal @ take k test_signal @ replicate (n - k) 0, P)
             = Inr (train_signal @ test_signal, Q)
           \<and> length Q = n
           \<and> (\<forall>i<k. Q ! i = P ! i)
           \<and> (\<forall>i. k \<le> i \<and> i < n \<longrightarrow>
                 Q ! i = (if i = 0 then (if train_signal = [] then 0 else last train_signal)
                          else alpha * test_signal ! (i - 1) + (1 - alpha) * Q ! (i - 1)))"
  using assms
proof (induction "n - k" arbitrary: k P)
  case 0
  then have "k = n" by simp
  show ?case unfolding \<open>k = n\<close>
  proof (intro exI[of _ P] conjI)
    show "smoothing_loop alpha train_signal test_signal [n..<n]
               (train_signal @ take n test_signal @ replicate (n - n) 0, P)
             = Inr (train_signal @ test_signal, P)"
      using loop_done[OF "0.prems"(1,3)] .
  qed (use "0.prems" in auto)
next
  case (Suc d)
  then have kn: "k < n" by simp
  let ?seed = "if train_signal = [] then 0 else last train_signal"
  let ?v = "if k = 0 then ?seed else alpha * test_signal ! (k - 1) + (1 - alpha) * P ! (k - 1)"
  have u: "[k..<n] = k # [Suc k..<n]" using kn by (simp add: upt_conv_Cons)
  have d: "d = n - Suc k" using Suc.hyps(2) by simp
  have l: "length (P[k := ?v]) = n" using Suc.prems by simp
  have sk: "Suc k \<le> n" using kn by simp
  from Suc.hyps(1)[OF d Suc.prems(1) sk l]
  obtain Q where Q: "smoothing_loop alpha train_signal test_signal [Suc k..<n]
          (train_signal @ take (Suc k) test_signal @ replicate (n - Suc k) 0, P[k := ?v])
        = Inr (train_signal @ test_signal, Q)"
      "length Q = n" "\<forall>i<Suc k. Q ! i = P[k := ?v] ! i"
      "\<forall>i. Suc k \<le> i \<and> i < n \<longrightarrow>
                 Q ! i = (if i = 0 then ?seed
                          else alpha * test_signal ! (i - 1) + (1 - alpha) * Q ! (i - 1))"
    by blast
  have below: "Q ! i = P ! i" if "i < k" for i
  proof -
    have "Q ! i = P[k := ?v] ! i" using Q(3) that by simp
    then show ?thesis using that by simp
  qed
  have "Q ! k = P[k := ?v] ! k" using Q(3) by simp
  then have at_k: "Q ! k = ?v" using kn Suc.prems(3) by simp
  have Qk: "Q ! k = (if k = 0 then ?seed
                 else alpha * test_signal ! (k - 1) + (1 - alpha) * Q ! (k - 1))"
  proof (cases "k = 0")
    case True then show ?thesis using at_k by simp
  next
    case False
    then have "Q ! (k - 1) = P ! (k - 1)" using below[of "k - 1"] by simp
    then show ?thesis using at_k False by simp
  qed
  show ?case
  proof (intro exI[of _ Q] conjI allI impI)
    show "smoothing_loop alpha train_signal test_signal [k..<n]
            (train_signal @ take k test_signal @ replicate (n - k) 0, P)
          = Inr (train_signal @ test_signal, Q)"
      unfolding u smoothing_step[OF Suc.prems(1) kn Suc.prems(3)] using Q(1) .
    show "length Q = n" by (rule Q(2))
    show "Q ! i = P ! i" if "i < k" for i using below[OF that] .
    show "Q ! i = (if i = 0 then ?seed
                   else alpha * test_signal ! (i - 1) + (1 - alpha) * Q ! (i - 1))"
      if i: "k \<le> i \<and> i < n" for i
    proof (cases "i = k")
      case True then show ?thesis using Qk by simp
    next
      case False
      then have "Suc k \<le> i \<and> i < n" using i by simp
      then show ?thesis using Q(4) by blast
    qed
  qed
qed

subsection \<open>The loop of the naive baseline\<close>

lemma naive_step:
  assumes n: "length test_signal = n" and kn: "k < n" and P: "length P = n"
  shows "naive_loop train_signal test_signal (k # is)
           (train_signal @ take k test_signal @ replicate (n - k) 0, P)
       = naive_loop train_signal test_signal is
           (train_signal @ take (Suc k) test_signal @ replicate (n - Suc k) 0,
            P[k := (if k = 0 then (if train_signal = [] then 0 else last train_signal)
                    else test_signal ! (k - 1))])"
proof -
  have sp: "setitem P (int k) v = Inr (P[k := v])" for v
    using kn P by (simp add: setitem_nat)
  have gt: "getitem test_signal (int k) = Inr (test_signal ! k)"
    using kn n by (simp add: getitem_nat)
  show ?thesis
    by (simp only: naive_loop.simps Let_def history_previous[OF n kn]
          history_reveal[OF n kn] sp gt sum.case)
qed

lemma naive_loop_run:
  assumes "length test_signal = n" "k \<le> n" "length P = n"
  shows "\<exists>Q. naive_loop train_signal test_signal [k..<n]
               (train_signal @ take k test_signal @ replicate (n - k) 0, P)
             = Inr (train_signal @ test_signal, Q)
           \<and> length Q = n
           \<and> (\<forall>i<k. Q ! i = P ! i)
           \<and> (\<forall>i. k \<le> i \<and> i < n \<longrightarrow>
                 Q ! i = (if i = 0 then (if train_signal = [] then 0 else last train_signal)
                          else test_signal ! (i - 1)))"
  using assms
proof (induction "n - k" arbitrary: k P)
  case 0
  then have "k = n" by simp
  show ?case unfolding \<open>k = n\<close>
  proof (intro exI[of _ P] conjI)
    show "naive_loop train_signal test_signal [n..<n]
               (train_signal @ take n test_signal @ replicate (n - n) 0, P)
             = Inr (train_signal @ test_signal, P)"
      using "0.prems"(1) by simp
  qed (use "0.prems" in auto)
next
  case (Suc d)
  then have kn: "k < n" by simp
  let ?v = "if k = 0 then (if train_signal = [] then 0 else last train_signal)
            else test_signal ! (k - 1)"
  have u: "[k..<n] = k # [Suc k..<n]" using kn by (simp add: upt_conv_Cons)
  have d: "d = n - Suc k" using Suc.hyps(2) by simp
  have l: "length (P[k := ?v]) = n" using Suc.prems by simp
  have sk: "Suc k \<le> n" using kn by simp
  from Suc.hyps(1)[OF d Suc.prems(1) sk l]
  obtain Q where Q: "naive_loop train_signal test_signal [Suc k..<n]
          (train_signal @ take (Suc k) test_signal @ replicate (n - Suc k) 0, P[k := ?v])
        = Inr (train_signal @ test_signal, Q)"
      "length Q = n" "\<forall>i<Suc k. Q ! i = P[k := ?v] ! i"
      "\<forall>i. Suc k \<le> i \<and> i < n \<longrightarrow>
                 Q ! i = (if i = 0 then (if train_signal = [] then 0 else last train_signal)
                          else test_signal ! (i - 1))"
    by blast
  have below: "Q ! i = P ! i" if "i < k" for i
  proof -
    have "Q ! i = P[k := ?v] ! i" using Q(3) that by simp
    then show ?thesis using that by simp
  qed
  have "Q ! k = P[k := ?v] ! k" using Q(3) by simp
  then have at_k: "Q ! k = ?v" using kn Suc.prems(3) by simp
  show ?case
  proof (intro exI[of _ Q] conjI allI impI)
    show "naive_loop train_signal test_signal [k..<n]
            (train_signal @ take k test_signal @ replicate (n - k) 0, P)
          = Inr (train_signal @ test_signal, Q)"
      unfolding u naive_step[OF Suc.prems(1) kn Suc.prems(3)] using Q(1) .
    show "length Q = n" by (rule Q(2))
    show "Q ! i = P ! i" if "i < k" for i using below[OF that] .
    show "Q ! i = (if i = 0 then (if train_signal = [] then 0 else last train_signal)
                   else test_signal ! (i - 1))"
      if i: "k \<le> i \<and> i < n" for i
    proof (cases "i = k")
      case True then show ?thesis using at_k by simp
    next
      case False
      then have "Suc k \<le> i \<and> i < n" using i by simp
      then show ?thesis using Q(4) by blast
    qed
  qed
qed

subsection \<open>Results of the baselines\<close>

text \<open>
  Both baselines always return: no index of the loops is out of bounds. With an empty
  training signal the first prediction reads \<^verbatim>\<open>history[-1]\<close>, the last of the zeros.
\<close>

lemma exponential_smoothing_run:
  "\<exists>Q. exponential_smoothing alpha train_signal test_signal = Inr Q
       \<and> length Q = length test_signal
       \<and> (\<forall>i. i < length test_signal \<longrightarrow>
             Q ! i = (if i = 0 then (if train_signal = [] then 0 else last train_signal)
                      else alpha * test_signal ! (i - 1) + (1 - alpha) * Q ! (i - 1)))"
proof -
  let ?n = "length test_signal"
  have len: "length (replicate ?n (0::'a)) = ?n" by simp
  have "\<exists>Q. smoothing_loop alpha train_signal test_signal [0..<?n]
               (train_signal @ take 0 test_signal @ replicate (?n - 0) 0, replicate ?n 0)
             = Inr (train_signal @ test_signal, Q)
           \<and> length Q = ?n
           \<and> (\<forall>i<0. Q ! i = replicate ?n 0 ! i)
           \<and> (\<forall>i. 0 \<le> i \<and> i < ?n \<longrightarrow>
                 Q ! i = (if i = 0 then (if train_signal = [] then 0 else last train_signal)
                          else alpha * test_signal ! (i - 1) + (1 - alpha) * Q ! (i - 1)))"
    by (rule smoothing_loop_run[OF refl le0 len])
  then obtain Q where Q: "smoothing_loop alpha train_signal test_signal [0..<?n]
        (train_signal @ take 0 test_signal @ replicate (?n - 0) 0, replicate ?n 0)
         = Inr (train_signal @ test_signal, Q)" "length Q = ?n"
     "\<forall>i. 0 \<le> i \<and> i < ?n \<longrightarrow>
             Q ! i = (if i = 0 then (if train_signal = [] then 0 else last train_signal)
                      else alpha * test_signal ! (i - 1) + (1 - alpha) * Q ! (i - 1))"
    by (elim exE conjE)
  have init: "train_signal @ take 0 test_signal @ replicate (?n - 0) 0
              = train_signal @ replicate ?n (0::'a)" by simp
  have "exponential_smoothing alpha train_signal test_signal = Inr Q"
    unfolding exponential_smoothing_def np_append_def np_zeros_def Let_def
      Q(1)[unfolded init] by simp
  moreover have "Q ! i = (if i = 0 then (if train_signal = [] then 0 else last train_signal)
                      else alpha * test_signal ! (i - 1) + (1 - alpha) * Q ! (i - 1))"
    if "i < ?n" for i
    using Q(3) that by blast
  ultimately show ?thesis using Q(2) by blast
qed

lemma walk_forward_naive_run:
  "\<exists>Q. walk_forward_naive train_signal test_signal = Inr Q
       \<and> length Q = length test_signal
       \<and> (\<forall>i. i < length test_signal \<longrightarrow>
             Q ! i = (if i = 0 then (if train_signal = [] then 0 else last train_signal)
                      else test_signal ! (i - 1)))"
proof -
  let ?n = "length test_signal"
  have len: "length (replicate ?n (0::'a)) = ?n" by simp
  have "\<exists>Q. naive_loop train_signal test_signal [0..<?n]
               (train_signal @ take 0 test_signal @ replicate (?n - 0) 0, replicate ?n 0)
             = Inr (train_signal @ test_signal, Q)
           \<and> length Q = ?n
           \<and> (\<forall>i<0. Q ! i = replicate ?n 0 ! i)
           \<and> (\<forall>i. 0 \<le> i \<and> i < ?n \<longrightarrow>
                 Q ! i = (if i = 0 then (if train_signal = [] then 0 else last train_signal)
                          else test_signal ! (i - 1)))"
    by (rule naive_loop_run[OF refl le0 len])
  then obtain Q where Q: "naive_loop train_signal test_signal [0..<?n]
        (train_signal @ take 0 test_signal @ replicate (?n - 0) 0, replicate ?n 0)
         = Inr (train_signal @ test_signal, Q)" "length Q = ?n"
     "\<forall>i. 0 \<le> i \<and> i < ?n \<longrightarrow>
             Q ! i = (if i = 0 then (if train_signal = [] then 0 else last train_signal)
                      else test_signal ! (i - 1))"
    by (elim exE conjE)
  have init: "train_signal @ take 0 test_signal @ replicate (?n - 0) 0
              = train_signal @ replicate ?n (0::'a)" by simp
  have "walk_forward_naive train_signal test_signal = Inr Q"
    unfolding walk_forward_naive_def np_append_def np_zeros_def Let_def
      Q(1)[unfolded init] by simp
  moreover have "Q ! i = (if i = 0 then (if train_signal = [] then 0 else last train_signal)
                      else test_signal ! (i - 1))"
    if "i < ?n" for i
    using Q(3) that by blast
  ultimately show ?thesis using Q(2) by blast
qed

text \<open>
  Claim C5. Exponential smoothing returns one prediction per test observation. When the
  training history is not empty, prediction 0 is the last value of the training
  history; for every \<open>i > 0\<close>, prediction \<open>i\<close> is
  \<open>alpha * history[t-1] + (1 - alpha) * prediction[i-1]\<close>, where \<open>history[t-1]\<close> is
  the observation \<open>test_signal[i-1]\<close> revealed at the step before. This holds for every
  \<open>alpha\<close>, so for every \<open>alpha\<close> in \<open>(0, 1]\<close>, and in the arithmetic of any type of
  numbers.
\<close>

theorem exponential_smoothing_recurrence:
  "\<exists>predictions. exponential_smoothing alpha train_signal test_signal = Inr predictions
       \<and> length predictions = length test_signal
       \<and> (train_signal \<noteq> [] \<and> test_signal \<noteq> [] \<longrightarrow> predictions ! 0 = last train_signal)
       \<and> (\<forall>i. 0 < i \<and> i < length test_signal \<longrightarrow>
             predictions ! i
               = alpha * test_signal ! (i - 1) + (1 - alpha) * predictions ! (i - 1))"
proof -
  from exponential_smoothing_run[of alpha train_signal test_signal]
  obtain Q where Q: "exponential_smoothing alpha train_signal test_signal = Inr Q"
    "length Q = length test_signal"
    "\<forall>i. i < length test_signal \<longrightarrow>
             Q ! i = (if i = 0 then (if train_signal = [] then 0 else last train_signal)
                      else alpha * test_signal ! (i - 1) + (1 - alpha) * Q ! (i - 1))"
    by blast
  have "Q ! 0 = last train_signal" if "train_signal \<noteq> [] \<and> test_signal \<noteq> []"
    using Q(3) that by auto
  moreover have "Q ! i = alpha * test_signal ! (i - 1) + (1 - alpha) * Q ! (i - 1)"
    if "0 < i \<and> i < length test_signal" for i
    using Q(3) that by auto
  ultimately show ?thesis using Q(1,2) by blast
qed

theorem exponential_smoothing_recurrence_witness:
  "exponential_smoothing (1 / 2) [1, 2, 3] [4, 6] = Inr [3, 7 / 2 :: real]
   \<and> [1, 2, 3] \<noteq> ([] :: real list) \<and> [4, 6] \<noteq> ([] :: real list)
   \<and> [3, 7 / 2] ! 0 = last [1, 2, 3 :: real]
   \<and> (0::nat) < 1 \<and> (1::nat) < length [4, 6 :: real]
   \<and> [3, 7 / 2] ! 1 = (1 / 2) * [4, 6] ! (1 - 1) + (1 - 1 / 2) * [3, 7 / 2 :: real] ! (1 - 1)"
proof -
  have e: "exponential_smoothing (1 / 2) [1, 2, 3] [4, 6] = Inr [3, 7 / 2 :: real]"
    by (simp add: exponential_smoothing_def np_zeros_def np_append_def getitem_def setitem_def
        upt_rec)
  have h: "[1, 2, 3] \<noteq> ([] :: real list) \<and> [4, 6] \<noteq> ([] :: real list)"
    "(0::nat) < 1 \<and> (1::nat) < length [4, 6 :: real]" by simp_all
  from exponential_smoothing_recurrence[of "1 / 2 :: real" "[1, 2, 3]" "[4, 6]"]
  obtain p :: "real list" where p: "exponential_smoothing (1 / 2) [1, 2, 3] [4, 6] = Inr p"
    "[1, 2, 3] \<noteq> ([] :: real list) \<and> [4, 6] \<noteq> ([] :: real list) \<longrightarrow> p ! 0 = last [1, 2, 3]"
    "\<forall>i. 0 < i \<and> i < length [4, 6 :: real] \<longrightarrow>
       p ! i = (1 / 2) * [4, 6] ! (i - 1) + (1 - 1 / 2) * p ! (i - 1)"
    by blast
  have pe: "p = [3, 7 / 2]" using p(1) unfolding e by simp
  have "[3, 7 / 2] ! 0 = last [1, 2, 3 :: real]"
    using p(2) h(1) unfolding pe by blast
  moreover have "[3, 7 / 2] ! 1 = (1 / 2) * [4, 6] ! (1 - 1) + (1 - 1 / 2) * [3, 7 / 2 :: real] ! (1 - 1)"
    using p(3) h(2) unfolding pe by blast
  ultimately show ?thesis using e h by blast
qed

text \<open>
  Claim C8. With the training history \<open>[1, 2, 3]\<close> and the test sequence \<open>[4, 5]\<close> the
  naive walk-forward loop predicts \<open>[3, 4]\<close>, and the root-mean-squared error of these
  predictions against the test sequence is \<open>sqrt (((4 - 3)\<^sup>2 + (5 - 4)\<^sup>2) / 2) = 1\<close>.
\<close>

theorem naive_baseline_scenario:
  "walk_forward_naive [1, 2, 3] [4, 5] = Inr [3, 4 :: real]
   \<and> rmse [3, 4] [4, 5] = Inr (sqrt (((4 - 3)\<^sup>2 + (5 - 4)\<^sup>2) / 2))
   \<and> rmse [3, 4] [4, 5] = Inr 1"
  by (simp add: walk_forward_naive_def rmse_def mean_squared_error_def np_zeros_def np_append_def
      getitem_def setitem_def upt_rec)

subsection \<open>Exponential smoothing with \<open>alpha = 1\<close>\<close>

text \<open>
  On finite doubles \<open>1 * h + (1 - 1) * q\<close> is \<open>h\<close>; it is NaN when \<open>q\<close> is infinite or
  NaN. The predictions of finite signals are finite.
\<close>

lemma one_times_plus_zero_times:
  "is_finite h \<Longrightarrow> is_finite q \<Longrightarrow> 1 * h + (1 - 1) * q = h"
  by (cases h; cases q) (simp_all add: one_double_def)

lemma is_finite_seed:
  "list_all is_finite train_signal
   \<Longrightarrow> is_finite (if train_signal = [] then 0 else last train_signal)"
  by (auto simp: zero_double_def list_all_iff)

lemma smoothing_one_finite:
  fixes train_signal test_signal Q :: "double list"
  assumes tr: "list_all is_finite train_signal" and te: "list_all is_finite test_signal"
    and Q: "\<forall>i. i < length test_signal \<longrightarrow>
             Q ! i = (if i = 0 then (if train_signal = [] then 0 else last train_signal)
                      else 1 * test_signal ! (i - 1) + (1 - 1) * Q ! (i - 1))"
  shows "i < length test_signal \<Longrightarrow>
           is_finite (Q ! i)
           \<and> Q ! i = (if i = 0 then (if train_signal = [] then 0 else last train_signal)
                      else test_signal ! (i - 1))"
proof (induction i)
  case 0
  then show ?case using Q is_finite_seed[OF tr] by simp
next
  case (Suc i)
  have "i < length test_signal" using Suc.prems by simp
  from Suc.IH[OF this] have q: "is_finite (Q ! i)" by (rule conjunct1)
  have t: "is_finite (test_signal ! i)" using te Suc.prems by (simp add: list_all_length)
  have "Q ! Suc i = 1 * test_signal ! i + (1 - 1) * Q ! i" using Q Suc.prems by simp
  then have "Q ! Suc i = test_signal ! i" using one_times_plus_zero_times[OF t q] by simp
  then show ?case using t by simp
qed

text \<open>
  Claim C10 says that exponential smoothing with \<open>alpha = 1\<close> returns the predictions of
  the naive loop for every training history and test sequence. With the training
  history \<open>[inf]\<close> and the test sequence \<open>[1, 2]\<close> the naive loop predicts \<open>[inf, 1]\<close>,
  and exponential smoothing predicts \<open>[inf, nan]\<close>, since \<open>(1 - 1) * inf\<close> is NaN.
\<close>

theorem exponential_smoothing_one_not_naive:
  "exponential_smoothing 1 [PosInf] [Finite 1, Finite 2] = Inr [PosInf, NaN]
   \<and> walk_forward_naive [PosInf] [Finite 1, Finite 2] = Inr [PosInf, Finite 1]
   \<and> exponential_smoothing 1 [PosInf] [Finite 1, Finite 2]
       \<noteq> walk_forward_naive [PosInf] [Finite 1, Finite 2]"
  by (simp add: exponential_smoothing_def walk_forward_naive_def np_zeros_def np_append_def
      getitem_def setitem_def upt_rec one_double_def zero_double_def)

text \<open>
  Claim C10, amended. For every training history and test sequence of finite numbers,
  exponential smoothing with \<open>alpha = 1\<close> returns exactly what the naive walk-forward
  loop computes; each prediction is the previous true observation (the last training
  value for the first prediction, when there is one).
\<close>

theorem exponential_smoothing_one_is_naive:
  fixes train_signal test_signal :: "double list"
  assumes "list_all is_finite train_signal" and "list_all is_finite test_signal"
  shows "exponential_smoothing 1 train_signal test_signal
           = walk_forward_naive train_signal test_signal
   \<and> (\<exists>predictions. walk_forward_naive train_signal test_signal = Inr predictions
         \<and> length predictions = length test_signal
         \<and> (\<forall>i. 0 < i \<and> i < length test_signal \<longrightarrow> predictions ! i = test_signal ! (i - 1))
         \<and> (train_signal \<noteq> [] \<and> test_signal \<noteq> [] \<longrightarrow> predictions ! 0 = last train_signal))"
proof -
  from exponential_smoothing_run[of 1 train_signal test_signal]
  obtain Q where Q: "exponential_smoothing 1 train_signal test_signal = Inr Q"
    "length Q = length test_signal"
    "\<forall>i. i < length test_signal \<longrightarrow>
             Q ! i = (if i = 0 then (if train_signal = [] then 0 else last train_signal)
                      else 1 * test_signal ! (i - 1) + (1 - 1) * Q ! (i - 1))"
    by blast
  from walk_forward_naive_run[of train_signal test_signal]
  obtain P where P: "walk_forward_naive train_signal test_signal = Inr P"
    "length P = length test_signal"
    "\<forall>i. i < length test_signal \<longrightarrow>
             P ! i = (if i = 0 then (if train_signal = [] then 0 else last train_signal)
                      else test_signal ! (i - 1))"
    by blast
  have "Q ! i = P ! i" if "i < length Q" for i
    using smoothing_one_finite[OF assms Q(3), of i] P(3) that Q(2) by simp
  then have "Q = P" using Q(2) P(2) by (intro nth_equalityI) simp_all
  then have eq: "exponential_smoothing 1 train_signal test_signal
           = walk_forward_naive train_signal test_signal"
    using Q(1) P(1) by simp
  have "P ! 0 = last train_signal" if "train_signal \<noteq> [] \<and> test_signal \<noteq> []"
    using P(3) that by auto
  moreover have "P ! i = test_signal ! (i - 1)" if "0 < i \<and> i < length test_signal" for i
    using P(3) that by auto
  ultimately have "\<exists>predictions. walk_forward_naive train_signal test_signal = Inr predictions
         \<and> length predictions = length test_signal
         \<and> (\<forall>i. 0 < i \<and> i < length test_signal \<longrightarrow> predictions ! i = test_signal ! (i - 1))
         \<and> (train_signal \<noteq> [] \<and> test_signal \<noteq> [] \<longrightarrow> predictions ! 0 = last train_signal)"
    using P(1,2) by blast
  with eq show ?thesis by (rule conjI)
qed

theorem exponential_smoothing_one_is_naive_witness:
  "list_all is_finite [Finite 1, Finite 2, Finite 3]
   \<and> list_all is_finite [Finite 4, Finite 5]
   \<and> exponential_smoothing 1 [Finite 1, Finite 2, Finite 3] [Finite 4, Finite 5]
       = walk_forward_naive [Finite 1, Finite 2, Finite 3] [Finite 4, Finite 5]
   \<and> walk_forward_naive [Finite 1, Finite 2, Finite 3] [Finite 4, Finite 5]
       = Inr [Finite 3, Finite 4]
   \<and> (0::nat) < 1 \<and> (1::nat) < length [Finite 4, Finite 5]
   \<and> [Finite 3, Finite 4] ! 1 = [Finite 4, Finite 5] ! (1 - 1)
   \<and> [Finite 1, Finite 2, Finite 3] \<noteq> [] \<and> [Finite 4, Finite 5] \<noteq> []
   \<and> [Finite 3, Finite 4] ! 0 = last [Finite 1, Finite 2, Finite 3]"
proof -
  let ?train = "[Finite 1, Finite 2, Finite 3]"
  let ?test = "[Finite 4, Finite 5]"
  have f: "list_all is_finite ?train" "list_all is_finite ?test" by simp_all
  have e: "walk_forward_naive ?train ?test = Inr [Finite 3, Finite 4]"
    by (simp add: walk_forward_naive_def np_zeros_def np_append_def getitem_def setitem_def upt_rec)
  have h: "?train \<noteq> [] \<and> ?test \<noteq> []" "(0::nat) < 1 \<and> (1::nat) < length ?test" by simp_all
  from exponential_smoothing_one_is_naive[OF f]
  obtain p :: "double list" where p:
    "exponential_smoothing 1 ?train ?test = walk_forward_naive ?train ?test"
    "walk_forward_naive ?train ?test = Inr p"
    "\<forall>i. 0 < i \<and> i < length ?test \<longrightarrow> p ! i = ?test ! (i - 1)"
    "?train \<noteq> [] \<and> ?test \<noteq> [] \<longrightarrow> p ! 0 = last ?train"
    by blast
  have pe: "p = [Finite 3, Finite 4]" using p(2) unfolding e by simp
  have "[Finite 3, Finite 4] ! 1 = ?test ! (1 - 1)" using p(3) h(2) unfolding pe by blast
  moreover have "[Finite 3, Finite 4] ! 0 = last ?train" using p(4) h(1) unfolding pe by blast
  ultimately show ?thesis using p(1) e h f by blast
qed

section \<open>Properties of the unroll driver\<close>

subsection \<open>Shapes of the chunks and of the outputs\<close>

lemma split_1_Cons:
  "split_1 t = (if size1 t = 0 then t else column t 0)
               # (if size1 t = 0 then [] else map (column t) [1..<size1 t])"
  by (simp add: split_1_def upt_conv_Cons)

lemma length_split_1: "length (split_1 t) = max 1 (size1 t)"
  by (simp add: split_1_def)

lemma size1_first_chunk:
  "size1 (if size1 t = 0 then t else column t 0) = (if size1 t = 0 then 0 else 1)"
  by (simp add: column_def)

lemma size0_first_chunk:
  "size0 (if size1 t = 0 then t else column t 0) = size0 t"
  by (simp add: column_def)

lemma chunks_split_1:
  "list_all (\<lambda>c. size0 c = size0 t \<and> size1 c = (if size1 t = 0 then 0 else 1)) (split_1 t)"
  by (simp add: split_1_def column_def list_all_iff)

lemma unroll_rejects_first:
  assumes "size1 x \<noteq> input_size (rnn1 self) \<or> size0 x \<noteq> size0 hidden
           \<or> size1 hidden \<noteq> cell_hidden_size (rnn1 self)"
  shows "unroll self (x # chunks) hidden outputs = Inl ShapeMismatch"
  using assms by (auto simp: RNNCell_forward_def)

lemma forward_rejects:
  assumes "(if size1 input = 0 then 0 else 1) \<noteq> input_size (rnn1 self)
           \<or> hidden_size self \<noteq> cell_hidden_size (rnn1 self)"
  shows "forward self input future = Inl ShapeMismatch"
proof -
  let ?x = "if size1 input = 0 then input else column input 0"
  have "size1 ?x \<noteq> input_size (rnn1 self)
        \<or> size1 (zeros (size0 input) (hidden_size self)) \<noteq> cell_hidden_size (rnn1 self)"
    using assms unfolding size1_first_chunk by (simp add: zeros_def)
  then have "unroll self (split_1 input) (zeros (size0 input) (hidden_size self)) []
             = Inl ShapeMismatch"
    unfolding split_1_Cons[of input] by (intro unroll_rejects_first) blast
  then show ?thesis by (simp add: forward_def)
qed

lemma unroll_outputs:
  "unroll self chunks hidden outputs = Inr (hidden', outputs') \<Longrightarrow>
   \<exists>new. outputs' = outputs @ new \<and> length new = length chunks
        \<and> list_all (\<lambda>out. size0 out = size0 hidden \<and> size1 out = out_features (linear' self)) new"
proof (induction chunks arbitrary: hidden outputs)
  case Nil
  then show ?case by simp
next
  case (Cons x chunks)
  from Cons.prems obtain h1 where h1: "RNNCell_forward (rnn1 self) x hidden = Inr h1"
    by (cases "RNNCell_forward (rnn1 self) x hidden") auto
  from Cons.prems h1 obtain o1 where o1: "Linear_forward (linear' self) h1 = Inr o1"
    by (cases "Linear_forward (linear' self) h1") auto
  have rest: "unroll self chunks h1 (outputs @ [o1]) = Inr (hidden', outputs')"
    using Cons.prems h1 o1 by simp
  have sh: "size0 h1 = size0 hidden"
    using h1 by (auto simp: RNNCell_forward_def split: if_splits)
  have so: "size0 o1 = size0 hidden \<and> size1 o1 = out_features (linear' self)"
    using o1 sh by (auto simp: Linear_forward_def split: if_splits)
  from Cons.IH[OF rest] obtain new where new: "outputs' = (outputs @ [o1]) @ new"
    "length new = length chunks"
    "list_all (\<lambda>out. size0 out = size0 h1 \<and> size1 out = out_features (linear' self)) new"
    by blast
  show ?case
  proof (intro exI[of _ "o1 # new"] conjI)
    show "outputs' = outputs @ o1 # new" using new(1) by simp
    show "length (o1 # new) = length (x # chunks)" using new(2) by simp
    show "list_all (\<lambda>out. size0 out = size0 hidden \<and> size1 out = out_features (linear' self))
            (o1 # new)"
      using new(3) so sh by simp
  qed
qed

lemma sum_list_const: "list_all (\<lambda>out. f out = (c::nat)) xs \<Longrightarrow> sum_list (map f xs) = length xs * c"
  by (induction xs) auto

lemma cat_1_size1:
  "cat_1 ts = Inr out \<Longrightarrow> size1 out = sum_list (map size1 ts) \<and> size0 out = size0 (hd ts)"
  by (cases ts) (auto split: if_splits)

lemma cat_1_uniform:
  assumes "ts \<noteq> []" "list_all (\<lambda>out. size0 out = b) ts"
  shows "\<exists>out. cat_1 ts = Inr out"
  using assms by (cases ts) (auto simp: list_all_iff)

lemma unroll_accepts:
  assumes "list_all (\<lambda>c. size0 c = size0 hidden \<and> size1 c = input_size (rnn1 self)) chunks"
    and "size1 hidden = cell_hidden_size (rnn1 self)"
    and "in_features (linear' self) = cell_hidden_size (rnn1 self)"
  shows "\<exists>hidden' outputs'. unroll self chunks hidden outputs = Inr (hidden', outputs')"
  using assms
proof (induction chunks arbitrary: hidden outputs)
  case Nil
  then show ?case by simp
next
  case (Cons x chunks)
  obtain h1 where h1: "RNNCell_forward (rnn1 self) x hidden = Inr h1"
    "size0 h1 = size0 hidden" "size1 h1 = cell_hidden_size (rnn1 self)"
    using Cons.prems by (simp add: RNNCell_forward_def)
  obtain o1 where o1: "Linear_forward (linear' self) h1 = Inr o1"
    using Cons.prems h1 by (simp add: Linear_forward_def)
  have "list_all (\<lambda>c. size0 c = size0 h1 \<and> size1 c = input_size (rnn1 self)) chunks"
    using Cons.prems(1) h1(2) by simp
  from Cons.IH[OF this h1(3) Cons.prems(3), of "outputs @ [o1]"] h1(1) o1
  show ?case by simp
qed

subsection \<open>What the driver returns\<close>

text \<open>The argument \<open>future\<close> is never read.\<close>

lemma forward_future_irrelevant: "forward self input future = forward self input future'"
  by (simp add: forward_def)

text \<open>
  A returned tensor joins one output per chunk, each \<open>out_features\<close> wide; there are as
  many chunks as time steps, and one chunk when the input has no column.
\<close>

lemma forward_trace:
  assumes "forward self input future = Inr (outputs, hidden)"
  shows "\<exists>trace. length trace = max 1 (size1 input)
           \<and> list_all (\<lambda>out. size0 out = size0 input \<and> size1 out = out_features (linear' self)) trace
           \<and> cat_1 trace = Inr outputs"
proof -
  let ?z = "zeros (size0 input) (hidden_size self)"
  obtain h outs where u: "unroll self (split_1 input) ?z [] = Inr (h, outs)"
    using assms by (cases "unroll self (split_1 input) ?z []") (auto simp: forward_def)
  have c: "cat_1 outs = Inr outputs"
    using assms u by (cases "cat_1 outs") (auto simp: forward_def)
  from unroll_outputs[OF u] obtain new where new: "outs = [] @ new"
    "length new = length (split_1 input)"
    "list_all (\<lambda>out. size0 out = size0 ?z \<and> size1 out = out_features (linear' self)) new"
    by blast
  have "size0 ?z = size0 input" by (simp add: zeros_def)
  then show ?thesis using new c by (auto simp: length_split_1)
qed

lemma forward_trace_size1:
  assumes "forward self input future = Inr (outputs, hidden)"
  shows "size1 outputs = max 1 (size1 input) * out_features (linear' self)"
proof -
  from forward_trace[OF assms] obtain trace where t: "length trace = max 1 (size1 input)"
    "list_all (\<lambda>out. size0 out = size0 input \<and> size1 out = out_features (linear' self)) trace"
    "cat_1 trace = Inr outputs" by blast
  have "list_all (\<lambda>out. size1 out = out_features (linear' self)) trace"
    using t(2) by (simp add: list_all_iff)
  from sum_list_const[OF this] cat_1_size1[OF t(3)] t(1) show ?thesis by simp
qed

text \<open>
  The driver returns for every input with at least one time step, when the layers are
  sized as the constructor sizes them and the cell takes inputs of size one.
\<close>

lemma forward_returns:
  assumes "0 < size1 input" "input_size (rnn1 self) = 1"
    and "cell_hidden_size (rnn1 self) = hidden_size self"
    and "in_features (linear' self) = hidden_size self"
  shows "\<exists>outputs hidden. forward self input future = Inr (outputs, hidden)"
proof -
  let ?z = "zeros (size0 input) (hidden_size self)"
  have "list_all (\<lambda>c. size0 c = size0 ?z \<and> size1 c = input_size (rnn1 self)) (split_1 input)"
    using chunks_split_1[of input] assms(1,2) by (simp add: zeros_def)
  moreover have "size1 ?z = cell_hidden_size (rnn1 self)" using assms(3) by (simp add: zeros_def)
  moreover have "in_features (linear' self) = cell_hidden_size (rnn1 self)" using assms(3,4) by simp
  ultimately obtain h outs where u: "unroll self (split_1 input) ?z [] = Inr (h, outs)"
    using unroll_accepts[of ?z self "split_1 input" "[]"] by blast
  from unroll_outputs[OF u] obtain new where new: "outs = [] @ new"
    "length new = length (split_1 input)"
    "list_all (\<lambda>out. size0 out = size0 ?z \<and> size1 out = out_features (linear' self)) new"
    by blast
  have "outs \<noteq> []" using new(1,2) by (auto simp: length_split_1)
  moreover have "list_all (\<lambda>out. size0 out = size0 ?z) outs"
    using new(1,3) by (simp add: list_all_iff)
  ultimately obtain out where "cat_1 outs = Inr out" using cat_1_uniform by blast
  then show ?thesis using u by (simp add: forward_def)
qed

text \<open>
  A run by hand: one signal, two time steps, both \<open>0\<close>. The cell computes \<open>tanh x\<close>
  and the output layer adds one, so that every state is \<open>0\<close> and every output \<open>1\<close>.
\<close>

lemma forward_example:
  "forward (RNN_init 1 1 1 [[1]] [[0]] [0] [0] [[1]] [1])
      \<lparr>size0 = 1, size1 = 2, rows = [[0, 0]]\<rparr> future
   = Inr (\<lparr>size0 = 1, size1 = 2, rows = [[1, 1]]\<rparr>, \<lparr>size0 = 1, size1 = 1, rows = [[0]]\<rparr>)"
  by (simp add: forward_def RNN_init_def split_1_def column_def zeros_def RNNCell_forward_def
      Linear_forward_def affine_def dot_def upt_rec)

subsection \<open>The claims on the unroll driver\<close>

text \<open>
  Claim C1 says that for a non-empty input of \<open>T\<close> steps and \<open>future \<ge> 0\<close> the trace
  has length \<open>T + future\<close>. The method of the notebook never reads \<open>future\<close>: for an
  input of one step and \<open>future = 1\<close> the returned trace has one column, not two.
\<close>

theorem forward_future_one_step_example:
  "forward (RNN_init 1 1 1 [[1]] [[0]] [0] [0] [[1]] [1])
      \<lparr>size0 = 1, size1 = 1, rows = [[0]]\<rparr> 1
   = Inr (\<lparr>size0 = 1, size1 = 1, rows = [[1]]\<rparr>, \<lparr>size0 = 1, size1 = 1, rows = [[0]]\<rparr>)
   \<and> size1 \<lparr>size0 = 1, size1 = 1, rows = [[1 :: real]]\<rparr> \<noteq> 1 + 1"
  by (simp add: forward_def RNN_init_def split_1_def column_def zeros_def RNNCell_forward_def
      Linear_forward_def affine_def dot_def upt_rec)

text \<open>
  Claim C2 says that each of the last \<open>future\<close> steps feeds the latest output back as
  the input. The method takes no such step: for two observed steps and \<open>future = 1\<close>
  the trace has the two open-loop outputs only, and the returned state is the state
  after the second observation, \<open>0\<close>; the step that would consume the latest output
  \<open>1\<close> from that state gives the state \<open>tanh 1\<close>, which is not \<open>0\<close>.
\<close>

theorem forward_no_closed_loop_example:
  "forward (RNN_init 1 1 1 [[1]] [[0]] [0] [0] [[1]] [1])
      \<lparr>size0 = 1, size1 = 2, rows = [[0, 0]]\<rparr> 1
   = Inr (\<lparr>size0 = 1, size1 = 2, rows = [[1, 1]]\<rparr>, \<lparr>size0 = 1, size1 = 1, rows = [[0]]\<rparr>)
   \<and> RNNCell_forward (rnn1 (RNN_init 1 1 1 [[1]] [[0]] [0] [0] [[1]] [1]))
        \<lparr>size0 = 1, size1 = 1, rows = [[1]]\<rparr> \<lparr>size0 = 1, size1 = 1, rows = [[0]]\<rparr>
     = Inr \<lparr>size0 = 1, size1 = 1, rows = [[tanh 1]]\<rparr>
   \<and> \<lparr>size0 = 1, size1 = 1, rows = [[tanh 1]]\<rparr> \<noteq> \<lparr>size0 = 1, size1 = 1, rows = [[0 :: real]]\<rparr>"
proof (intro conjI)
  show "forward (RNN_init 1 1 1 [[1]] [[0]] [0] [0] [[1]] [1])
      \<lparr>size0 = 1, size1 = 2, rows = [[0, 0]]\<rparr> 1
   = Inr (\<lparr>size0 = 1, size1 = 2, rows = [[1, 1]]\<rparr>, \<lparr>size0 = 1, size1 = 1, rows = [[0]]\<rparr>)"
    by (rule forward_example)
  show "RNNCell_forward (rnn1 (RNN_init 1 1 1 [[1]] [[0]] [0] [0] [[1]] [1]))
        \<lparr>size0 = 1, size1 = 1, rows = [[1]]\<rparr> \<lparr>size0 = 1, size1 = 1, rows = [[0]]\<rparr>
     = Inr \<lparr>size0 = 1, size1 = 1, rows = [[tanh 1]]\<rparr>"
    by (simp add: RNN_init_def RNNCell_forward_def affine_def dot_def)
  show "\<lparr>size0 = 1, size1 = 1, rows = [[tanh 1]]\<rparr> \<noteq> \<lparr>size0 = 1, size1 = 1, rows = [[0 :: real]]\<rparr>"
    by simp
qed

text \<open>
  Claim C3. Each call of the driver starts from the state \<open>zeros (size0 input)
  (hidden_size self)\<close>, whose entries are all zero: the first step applies the cell to
  the first chunk of the input and this state, and the rest of the call continues from
  the state that step returns. For an input of one step, the state returned by the call
  is the cell applied to the input and the zero state.
\<close>

theorem forward_zero_initial_state:
  "forward self input future =
     (case RNNCell_forward (rnn1 self) (if size1 input = 0 then input else column input 0)
             (zeros (size0 input) (hidden_size self)) of
        Inl e \<Rightarrow> Inl e
      | Inr hidden_1 \<Rightarrow>
          (case Linear_forward (linear' self) hidden_1 of
             Inl e \<Rightarrow> Inl e
           | Inr output_1 \<Rightarrow>
               (case unroll self (if size1 input = 0 then [] else map (column input) [1..<size1 input])
                       hidden_1 [output_1] of
                  Inl e \<Rightarrow> Inl e
                | Inr (hidden', outputs) \<Rightarrow>
                    (case cat_1 outputs of
                       Inl e \<Rightarrow> Inl e
                     | Inr outputs' \<Rightarrow> Inr (outputs', hidden')))))
   \<and> size0 (zeros (size0 input) (hidden_size self)) = size0 input
   \<and> size1 (zeros (size0 input) (hidden_size self)) = hidden_size self
   \<and> well_shaped (zeros (size0 input) (hidden_size self))
   \<and> list_all (list_all (\<lambda>v. v = 0)) (rows (zeros (size0 input) (hidden_size self)))
   \<and> (\<forall>outputs hidden. size1 input = 1 \<and> forward self input future = Inr (outputs, hidden) \<longrightarrow>
         RNNCell_forward (rnn1 self) (column input 0) (zeros (size0 input) (hidden_size self))
           = Inr hidden)"
proof -
  let ?z = "zeros (size0 input) (hidden_size self)"
  let ?x = "if size1 input = 0 then input else column input 0"
  let ?rest = "if size1 input = 0 then [] else map (column input) [1..<size1 input]"
  have first: "forward self input future =
     (case RNNCell_forward (rnn1 self) ?x ?z of
        Inl e \<Rightarrow> Inl e
      | Inr hidden_1 \<Rightarrow>
          (case Linear_forward (linear' self) hidden_1 of
             Inl e \<Rightarrow> Inl e
           | Inr output_1 \<Rightarrow>
               (case unroll self ?rest hidden_1 [output_1] of
                  Inl e \<Rightarrow> Inl e
                | Inr (hidden', outputs) \<Rightarrow>
                    (case cat_1 outputs of
                       Inl e \<Rightarrow> Inl e
                     | Inr outputs' \<Rightarrow> Inr (outputs', hidden')))))"
    unfolding forward_def Let_def split_1_Cons[of input]
    by (simp split: sum.splits)
  have z: "size0 ?z = size0 input" "size1 ?z = hidden_size self" "well_shaped ?z"
    "list_all (list_all (\<lambda>v. v = 0)) (rows ?z)"
    by (simp_all add: zeros_def well_shaped_def list_all_iff)
  have one: "RNNCell_forward (rnn1 self) (column input 0) ?z = Inr hidden"
    if a: "size1 input = 1 \<and> forward self input future = Inr (outputs, hidden)"
    for outputs hidden
  proof -
    have r: "?rest = []" "?x = column input 0" using a by simp_all
    show ?thesis using a unfolding first r
      by (auto split: sum.splits)
  qed
  show ?thesis using first z one by blast
qed

theorem forward_zero_initial_state_witness:
  "size1 \<lparr>size0 = 1, size1 = 1, rows = [[0]]\<rparr> = 1
   \<and> forward (RNN_init 1 1 1 [[1]] [[1]] [0] [0] [[1]] [1])
         \<lparr>size0 = 1, size1 = 1, rows = [[0]]\<rparr> 0
       = Inr (\<lparr>size0 = 1, size1 = 1, rows = [[1]]\<rparr>, \<lparr>size0 = 1, size1 = 1, rows = [[0]]\<rparr>)
   \<and> RNNCell_forward (rnn1 (RNN_init 1 1 1 [[1]] [[1]] [0] [0] [[1]] [1]))
         (column \<lparr>size0 = 1, size1 = 1, rows = [[0]]\<rparr> 0)
         (zeros (size0 \<lparr>size0 = 1, size1 = 1, rows = [[0]]\<rparr>)
                (hidden_size (RNN_init 1 1 1 [[1]] [[1]] [0] [0] [[1]] [1])))
       = Inr \<lparr>size0 = 1, size1 = 1, rows = [[0]]\<rparr>"
proof -
  have s: "size1 \<lparr>size0 = 1, size1 = 1, rows = [[0 :: real]]\<rparr> = 1" by simp
  have f: "forward (RNN_init 1 1 1 [[1]] [[1]] [0] [0] [[1]] [1])
         \<lparr>size0 = 1, size1 = 1, rows = [[0]]\<rparr> 0
       = Inr (\<lparr>size0 = 1, size1 = 1, rows = [[1]]\<rparr>, \<lparr>size0 = 1, size1 = 1, rows = [[0]]\<rparr>)"
    by (simp add: forward_def RNN_init_def split_1_def column_def zeros_def RNNCell_forward_def
      Linear_forward_def affine_def dot_def upt_rec)
  from forward_zero_initial_state[of "RNN_init 1 1 1 [[1]] [[1]] [0] [0] [[1]] [1]"
      "\<lparr>size0 = 1, size1 = 1, rows = [[0]]\<rparr>" 0] s f
  have "RNNCell_forward (rnn1 (RNN_init 1 1 1 [[1]] [[1]] [0] [0] [[1]] [1]))
         (column \<lparr>size0 = 1, size1 = 1, rows = [[0]]\<rparr> 0)
         (zeros (size0 \<lparr>size0 = 1, size1 = 1, rows = [[0]]\<rparr>)
                (hidden_size (RNN_init 1 1 1 [[1]] [[1]] [0] [0] [[1]] [1])))
       = Inr \<lparr>size0 = 1, size1 = 1, rows = [[0]]\<rparr>"
    by blast
  with s f show ?thesis by blast
qed

text \<open>
  The state-passing method returns what \<open>forward\<close> computes and leaves the state of the
  interpreter as it was.
\<close>

lemma unroll_call_state:
  "snd (unroll_call s chunks hidden outputs) = s"
proof (induction chunks arbitrary: hidden outputs)
  case Nil
  show ?case by simp
next
  case (Cons x chunks)
  show ?case
  proof (cases "RNNCell_forward (rnn1 (rnn s)) x hidden")
    case (Inl e)
    then show ?thesis by (simp add: call_rnn1_def)
  next
    case h: (Inr hidden')
    show ?thesis
    proof (cases "Linear_forward (linear' (rnn s)) hidden'")
      case (Inl e)
      then show ?thesis using h by (simp add: call_rnn1_def call_linear_def)
    next
      case (Inr out)
      then show ?thesis using h Cons.IH by (simp add: call_rnn1_def call_linear_def)
    qed
  qed
qed

lemma unroll_call_value:
  "fst (unroll_call s chunks hidden outputs) = unroll (rnn s) chunks hidden outputs"
proof (induction chunks arbitrary: hidden outputs)
  case Nil
  show ?case by simp
next
  case (Cons x chunks)
  show ?case
  proof (cases "RNNCell_forward (rnn1 (rnn s)) x hidden")
    case (Inl e)
    then show ?thesis by (simp add: call_rnn1_def)
  next
    case h: (Inr hidden')
    show ?thesis
    proof (cases "Linear_forward (linear' (rnn s)) hidden'")
      case (Inl e)
      then show ?thesis using h by (simp add: call_rnn1_def call_linear_def)
    next
      case (Inr out)
      then show ?thesis using h Cons.IH by (simp add: call_rnn1_def call_linear_def)
    qed
  qed
qed

lemma forward_call_eq:
  "forward_call s input future = (forward (rnn s) input future, s)"
proof -
  let ?z = "zeros (size0 input) (hidden_size (rnn s))"
  have u: "unroll_call s (split_1 input) ?z [] = (unroll (rnn s) (split_1 input) ?z [], s)"
    using unroll_call_value[of s "split_1 input" ?z "[]"]
      unroll_call_state[of s "split_1 input" ?z "[]"]
    by (metis prod.collapse)
  show ?thesis
    unfolding forward_call_def forward_def Let_def u
    by (simp split: sum.splits prod.splits)
qed

text \<open>
  By contrast \<^verbatim>\<open>torch.randn\<close> depends on the generator: two generators give two
  tensors.
\<close>

lemma randn_draws:
  "fst (randn \<lparr>default_generator = (\<lambda>k. 0), rnn = self\<rparr> 1 1)
     \<noteq> fst (randn \<lparr>default_generator = (\<lambda>k. 1), rnn = self\<rparr> 1 1)"
  by (simp add: randn_def)

text \<open>
  Claim C4. The forward pass is deterministic. Two calls with the same parameters (the
  layers of the object), the same input and the same \<open>future\<close> return the same trace
  and the same final state, or raise the same error, whatever the random generator
  holds at each call: the method draws no number. A call leaves the generator and the
  attributes of the object as they were, and builds its initial state anew, so that a
  second call after the first returns what the first returned.
\<close>

theorem forward_call_deterministic:
  "fst (forward_call \<lparr>default_generator = g, rnn = self\<rparr> input future)
     = fst (forward_call \<lparr>default_generator = g', rnn = self\<rparr> input future)
   \<and> snd (forward_call s input future) = s
   \<and> fst (forward_call (snd (forward_call s input future)) input future)
       = fst (forward_call s input future)"
  by (simp add: forward_call_eq)

text \<open>
  Claim C6 says that an empty input sequence with \<open>future > 0\<close> fails with
  \<open>InvalidInput\<close>. The call does fail, but with the size error of the cell: for an input
  with no column \<^verbatim>\<open>split\<close> yields that input as the only chunk, and its size \<open>0\<close> is
  not the \<open>input_size\<close> of the cell.
\<close>

theorem forward_empty_sequence_not_InvalidInput:
  "forward (RNN_init 1 1 1 [[1]] [[0]] [0] [0] [[1]] [1])
      \<lparr>size0 = 1, size1 = 0, rows = [[]]\<rparr> 1 = Inl ShapeMismatch
   \<and> forward (RNN_init 1 1 1 [[1]] [[0]] [0] [0] [[1]] [1])
      \<lparr>size0 = 1, size1 = 0, rows = [[]]\<rparr> 1 \<noteq> Inl InvalidInput"
  by (simp add: forward_def RNN_init_def split_1_def RNNCell_forward_def)

text \<open>
  Claim C6, amended. For an empty input sequence, every \<open>future\<close> and a cell whose
  \<open>input_size\<close> is not zero, the driver fails with \<open>ShapeMismatch\<close> and returns no
  trace.
\<close>

theorem forward_empty_sequence:
  "size1 input = 0 \<Longrightarrow> input_size (rnn1 self) \<noteq> 0
   \<Longrightarrow> forward self input future = Inl ShapeMismatch"
  by (rule forward_rejects) simp

theorem forward_empty_sequence_witness:
  "size1 \<lparr>size0 = 1, size1 = 0, rows = [[]]\<rparr> = 0
   \<and> input_size (rnn1 (RNN_init 1 1 1 [[1]] [[0]] [0] [0] [[1]] [1])) \<noteq> 0
   \<and> forward (RNN_init 1 1 1 [[1]] [[0]] [0] [0] [[1]] [1])
        \<lparr>size0 = 1, size1 = 0, rows = [[]]\<rparr> 2 = Inl ShapeMismatch"
proof -
  have a: "size1 \<lparr>size0 = 1, size1 = 0, rows = [[] :: real list]\<rparr> = 0" by simp
  have b: "input_size (rnn1 (RNN_init 1 1 1 [[1]] [[0]] [0] [0] [[1]] [1])) \<noteq> 0"
    by (simp add: RNN_init_def)
  from forward_empty_sequence[OF a b, of 2] a b show ?thesis by blast
qed

text \<open>
  Claim C7. When an input vector handed to the cell (a chunk of the input) has a size
  other than the \<open>input_size\<close> of the cell, or the state has a size other than its
  \<open>hidden_size\<close>, the call raises \<open>ShapeMismatch\<close>; the result then holds no trace and
  no state.
\<close>

theorem forward_shape_mismatch:
  "(\<exists>c \<in> set (split_1 input). size1 c \<noteq> input_size (rnn1 self))
     \<or> size1 (zeros (size0 input) (hidden_size self)) \<noteq> cell_hidden_size (rnn1 self)
   \<Longrightarrow> forward self input future = Inl ShapeMismatch"
proof (rule forward_rejects)
  assume a: "(\<exists>c \<in> set (split_1 input). size1 c \<noteq> input_size (rnn1 self))
     \<or> size1 (zeros (size0 input) (hidden_size self)) \<noteq> cell_hidden_size (rnn1 self)"
  have "\<forall>c \<in> set (split_1 input). size1 c = (if size1 input = 0 then 0 else 1)"
    using chunks_split_1[of input] by (simp add: list_all_iff)
  moreover have "size1 (zeros (size0 input) (hidden_size self)) = hidden_size self"
    by (simp add: zeros_def)
  ultimately show "(if size1 input = 0 then 0 else 1) \<noteq> input_size (rnn1 self)
           \<or> hidden_size self \<noteq> cell_hidden_size (rnn1 self)"
    using a by auto
qed

theorem forward_shape_mismatch_witness:
  "(\<exists>c \<in> set (split_1 \<lparr>size0 = 1, size1 = 2, rows = [[3, 4]]\<rparr>).
       size1 c \<noteq> input_size (rnn1 (RNN_init 2 1 1 [[1, 1]] [[0]] [0] [0] [[1]] [1])))
   \<and> forward (RNN_init 2 1 1 [[1, 1]] [[0]] [0] [0] [[1]] [1])
        \<lparr>size0 = 1, size1 = 2, rows = [[3, 4]]\<rparr> 0 = Inl ShapeMismatch"
proof -
  have a: "\<exists>c \<in> set (split_1 \<lparr>size0 = 1, size1 = 2, rows = [[3, 4]]\<rparr>).
       size1 c \<noteq> input_size (rnn1 (RNN_init 2 1 1 [[1, 1]] [[0]] [0] [0] [[1]] [1]))"
    by (simp add: split_1_def column_def RNN_init_def upt_rec)
  then have "forward (RNN_init 2 1 1 [[1, 1]] [[0]] [0] [0] [[1]] [1])
        \<lparr>size0 = 1, size1 = 2, rows = [[3, 4]]\<rparr> 0 = Inl ShapeMismatch"
    by (intro forward_shape_mismatch disjI1)
  with a show ?thesis by (rule conjI)
qed

text \<open>
  Claim C9 says that \<open>future\<close> has no effect and that the trace length is always
  exactly \<open>T\<close>. The second part fails for a cell whose \<open>input_size\<close> is zero and an
  input with no column, \<open>T = 0\<close>: the only chunk is the input itself, the cell accepts
  it, and the call returns a trace of one output.
\<close>

theorem forward_trace_longer_than_input:
  "forward (RNN_init 0 1 1 [[]] [[0]] [0] [0] [[1]] [1])
      \<lparr>size0 = 1, size1 = 0, rows = [[]]\<rparr> 0
   = Inr (\<lparr>size0 = 1, size1 = 1, rows = [[1]]\<rparr>, \<lparr>size0 = 1, size1 = 1, rows = [[0]]\<rparr>)
   \<and> size1 \<lparr>size0 = 1, size1 = 1, rows = [[1 :: real]]\<rparr>
       \<noteq> size1 \<lparr>size0 = 1, size1 = 0, rows = [[] :: real list]\<rparr>"
  by (simp add: forward_def RNN_init_def split_1_def zeros_def RNNCell_forward_def
      Linear_forward_def affine_def dot_def)

text \<open>
  Claim C9, amended. The argument \<open>future\<close> has no effect: the result of a call,
  returned pair or error, is that of the call with \<open>future = 0\<close>. When the call returns,
  with a cell whose \<open>input_size\<close> is not zero, the trace joins exactly \<open>T = size1 input\<close>
  outputs, one per time step; it has \<open>T * out_features\<close> columns, that is \<open>T\<close> for the
  output size one of the notebook.
\<close>


theorem forward_ignores_future:
  "forward self input future = forward self input 0
   \<and> (\<forall>outputs hidden.
         input_size (rnn1 self) \<noteq> 0 \<and> forward self input future = Inr (outputs, hidden) \<longrightarrow>
         (\<exists>trace. length trace = size1 input
            \<and> list_all (\<lambda>out. size1 out = out_features (linear' self)) trace
            \<and> cat_1 trace = Inr outputs)
         \<and> size1 outputs = size1 input * out_features (linear' self)
         \<and> (out_features (linear' self) = 1 \<longrightarrow> size1 outputs = size1 input))"
proof (intro conjI allI impI)
  show "forward self input future = forward self input 0"
    by (rule forward_future_irrelevant)
next
  fix outputs hidden
  assume a: "input_size (rnn1 self) \<noteq> 0 \<and> forward self input future = Inr (outputs, hidden)"
  have "size1 input \<noteq> 0"
  proof
    assume "size1 input = 0"
    then have "forward self input future = Inl ShapeMismatch"
      using a by (intro forward_rejects) simp
    then show False using a by simp
  qed
  then have m: "max 1 (size1 input) = size1 input" by simp
  from a forward_trace[of self input future outputs hidden]
  obtain trace where t: "length trace = max 1 (size1 input)"
    "list_all (\<lambda>out. size0 out = size0 input \<and> size1 out = out_features (linear' self)) trace"
    "cat_1 trace = Inr outputs" by blast
  have "list_all (\<lambda>out. size1 out = out_features (linear' self)) trace"
    using t(2) by (simp add: list_all_iff)
  then show "\<exists>trace. length trace = size1 input
            \<and> list_all (\<lambda>out. size1 out = out_features (linear' self)) trace
            \<and> cat_1 trace = Inr outputs"
    using t(1,3) m by auto
  show s: "size1 outputs = size1 input * out_features (linear' self)"
    using a forward_trace_size1[of self input future outputs hidden] m by simp
  show "size1 outputs = size1 input" if "out_features (linear' self) = 1"
    using s that by simp
qed

theorem forward_ignores_future_witness:
  "forward (RNN_init 1 1 1 [[1]] [[0]] [0] [0] [[1]] [1])
      \<lparr>size0 = 1, size1 = 2, rows = [[0, 0]]\<rparr> 5
   = forward (RNN_init 1 1 1 [[1]] [[0]] [0] [0] [[1]] [1])
      \<lparr>size0 = 1, size1 = 2, rows = [[0, 0]]\<rparr> 0
   \<and> input_size (rnn1 (RNN_init 1 1 1 [[1]] [[0]] [0] [0] [[1]] [1])) \<noteq> 0
   \<and> forward (RNN_init 1 1 1 [[1]] [[0]] [0] [0] [[1]] [1])
      \<lparr>size0 = 1, size1 = 2, rows = [[0, 0]]\<rparr> 5
     = Inr (\<lparr>size0 = 1, size1 = 2, rows = [[1, 1]]\<rparr>, \<lparr>size0 = 1, size1 = 1, rows = [[0]]\<rparr>)
   \<and> out_features (linear' (RNN_init 1 1 1 [[1]] [[0]] [0] [0] [[1]] [1])) = 1
   \<and> size1 \<lparr>size0 = 1, size1 = 2, rows = [[1, 1]]\<rparr>
       = size1 \<lparr>size0 = 1, size1 = 2, rows = [[0, 0]]\<rparr>"
proof -
  let ?rnn = "RNN_init 1 1 1 [[1]] [[0]] [0] [0] [[1]] [1]"
  let ?x = "\<lparr>size0 = 1, size1 = 2, rows = [[0, 0 :: real]]\<rparr>"
  let ?y = "\<lparr>size0 = 1, size1 = 2, rows = [[1, 1 :: real]]\<rparr>"
  let ?h = "\<lparr>size0 = 1, size1 = 1, rows = [[0 :: real]]\<rparr>"
  have a: "input_size (rnn1 ?rnn) \<noteq> 0" by (simp add: RNN_init_def)
  have b: "forward ?rnn ?x 5 = Inr (?y, ?h)" by (rule forward_example)
  have c: "out_features (linear' ?rnn) = 1" by (simp add: RNN_init_def)
  note t = forward_ignores_future[of ?rnn ?x 5]
  from t have d: "forward ?rnn ?x 5 = forward ?rnn ?x 0" by (rule conjunct1)
  from t a b c have "size1 ?y = size1 ?x" by blast
  with a b c d show ?thesis by blast
qed

end
